theory Spec2Isabelle
  imports Complex_Main "HOL-Library.Log_Nat" "HOL-Library.Multiset" "HOL-Library.Product_Lexorder"
begin

section \<open>The catalog: the four tables of \<^verbatim>\<open>scripts/init_db.py\<close>\<close>

text \<open>
  A table is the list of its rows, in the order a sequential scan delivers them. Only the
  columns that the modelled statements read are kept (\<^verbatim>\<open>created_at\<close>, the surrogate
  keys of the join table and of the recommendations, and the association weight are read
  by none of them). A column declared without \<^verbatim>\<open>NOT NULL\<close> that a statement reads is
  an option, \<open>None\<close> being SQL's NULL. No key or uniqueness constraint is assumed of a
  catalog unless a theorem says so.
\<close>

record symptom =
  s_id :: int
  s_name :: string
  s_severity_weight :: "int option"

record disease =
  d_id :: int
  d_name :: string
  d_description :: "string option"

record disease_symptom =
  ds_disease_id :: int
  ds_symptom_id :: int

record recommendation =
  r_disease_id :: int
  recommendation_text :: string
  precaution_order :: "int option"

record catalog =
  symptoms_table :: "symptom list"
  diseases_table :: "disease list"
  disease_symptoms_table :: "disease_symptom list"
  recommendations_table :: "recommendation list"

section \<open>PostgreSQL's \<^verbatim>\<open>float8\<close> arithmetic on non-negative values\<close>

text \<open>
  The confidence expression of \<^verbatim>\<open>diagnose\<close> is
  \<^verbatim>\<open>CAST((COUNT(DISTINCT ds.symptom_id)::FLOAT / NULLIF(total, 0)) * 100 AS INTEGER)\<close>:
  both counts are converted to \<^verbatim>\<open>float8\<close> (IEEE 754 binary64), divided and multiplied
  there, and the cast to \<^verbatim>\<open>INTEGER\<close> rounds to the nearest integer, ties to even,
  raising \<^verbatim>\<open>integer out of range\<close> outside 32 bits.

  A non-negative finite \<^verbatim>\<open>float8\<close> is written as a fraction \<open>(n, d)\<close> of naturals,
  of value \<open>n / d\<close>. \<open>float8_round n d\<close> is the binary64 number nearest to \<open>n / d\<close>,
  ties to the even significand: the exponent \<open>e\<close> is chosen so that
  \<open>2^52 \<le> (n / d) / 2^e < 2^53\<close> and the significand is \<open>(n / d) / 2^e\<close> rounded to an
  integer. Subnormal numbers and overflow are outside the model; quotients and products of
  64-bit counts are well inside the normal range.
\<close>

type_synonym float8 = "nat \<times> nat"

definition float8_val :: "float8 \<Rightarrow> real" where
  "float8_val x = real (fst x) / real (snd x)"

definition round_half_even :: "nat \<Rightarrow> nat \<Rightarrow> nat" where
  "round_half_even n d =
     (let q = n div d; r = n mod d
      in if 2 * r < d then q
         else if d < 2 * r then q + 1
         else if even q then q else q + 1)"

definition float8_round :: "nat \<Rightarrow> nat \<Rightarrow> float8" where
  "float8_round n d =
     (if n = 0 then (0, 1)
      else let e0 = int (floorlog 2 n) - int (floorlog 2 d) - 53;
               e = (if 2 ^ 53 * (d * 2 ^ nat e0) \<le> n * 2 ^ nat (- e0) then e0 + 1 else e0);
               m = round_half_even (n * 2 ^ nat (- e)) (d * 2 ^ nat e)
           in (m * 2 ^ nat e, 2 ^ nat (- e)))"

definition float8_of_nat :: "nat \<Rightarrow> float8" where
  "float8_of_nat n = float8_round n 1"

definition float8_div :: "float8 \<Rightarrow> float8 \<Rightarrow> float8" where
  \<comment> \<open>called with a non-zero divisor only: \<^verbatim>\<open>NULLIF\<close> has turned 0 into NULL before\<close>
  "float8_div a b = float8_round (fst a * snd b) (snd a * fst b)"

definition float8_mul :: "float8 \<Rightarrow> float8 \<Rightarrow> float8" where
  "float8_mul a b = float8_round (fst a * fst b) (snd a * snd b)"

datatype sql_error = Integer_out_of_range

definition float8_to_int4 :: "float8 \<Rightarrow> sql_error + int" where
  "float8_to_int4 x =
     (let r = round_half_even (fst x) (snd x)
      in if r \<le> 2147483647 then Inr (int r) else Inl Integer_out_of_range)"

definition confidence_expr :: "nat \<Rightarrow> nat \<Rightarrow> sql_error + int option" where
  "confidence_expr matched tot =
     (if tot = 0 then Inr None
      else case float8_to_int4
                  (float8_mul (float8_div (float8_of_nat matched) (float8_of_nat tot))
                              (float8_of_nat 100)) of
             Inl e \<Rightarrow> Inl e
           | Inr c \<Rightarrow> Inr (Some c))"

section \<open>The stored function \<^verbatim>\<open>diagnose(symptom_ids INTEGER[])\<close>\<close>

record diagnosis_row =
  disease_id :: int
  disease_name :: string
  description :: "string option"
  match_count :: nat
  total_symptoms :: nat
  confidence_score :: "int option"

text \<open>
  \<^verbatim>\<open>FROM diseases d INNER JOIN disease_symptoms ds ON d.id = ds.disease_id
  WHERE ds.symptom_id = ANY(symptom_ids)\<close>
\<close>

definition joined_rows :: "catalog \<Rightarrow> int list \<Rightarrow> (disease \<times> disease_symptom) list" where
  "joined_rows db symptom_ids =
     [(d, ds). d \<leftarrow> diseases_table db, ds \<leftarrow> disease_symptoms_table db,
               d_id d = ds_disease_id ds \<and> ds_symptom_id ds \<in> set symptom_ids]"

text \<open>\<^verbatim>\<open>GROUP BY d.id, d.name, d.description\<close>: one group for each distinct key.\<close>

type_synonym group_key = "int \<times> string \<times> string option"

definition key_of :: "disease \<Rightarrow> group_key" where
  "key_of d = (d_id d, d_name d, d_description d)"

definition group_keys :: "(disease \<times> disease_symptom) list \<Rightarrow> group_key list" where
  "group_keys rows = remdups (map (key_of \<circ> fst) rows)"

definition group_of :: "(disease \<times> disease_symptom) list \<Rightarrow> group_key \<Rightarrow> disease_symptom list" where
  "group_of rows k = map snd (filter (\<lambda>row. key_of (fst row) = k) rows)"

text \<open>\<^verbatim>\<open>COUNT(DISTINCT ds.symptom_id)\<close> over the rows of a group.\<close>

definition count_distinct_symptom_id :: "disease_symptom list \<Rightarrow> nat" where
  "count_distinct_symptom_id g = length (remdups (map ds_symptom_id g))"

text \<open>\<^verbatim>\<open>(SELECT COUNT(*) FROM disease_symptoms ds2 WHERE ds2.disease_id = d.id)\<close>\<close>

definition count_disease_symptoms :: "catalog \<Rightarrow> int \<Rightarrow> nat" where
  "count_disease_symptoms db i =
     length (filter (\<lambda>ds2. ds_disease_id ds2 = i) (disease_symptoms_table db))"

text \<open>The select list, evaluated for one group that passed \<^verbatim>\<open>HAVING\<close>.\<close>

definition select_row ::
  "catalog \<Rightarrow> (disease \<times> disease_symptom) list \<Rightarrow> group_key \<Rightarrow> sql_error + diagnosis_row" where
  "select_row db rows k =
     (let matched = count_distinct_symptom_id (group_of rows k);
          tot = count_disease_symptoms db (fst k)
      in case confidence_expr matched tot of
           Inl e \<Rightarrow> Inl e
         | Inr c \<Rightarrow> Inr \<lparr>disease_id = fst k, disease_name = fst (snd k),
                         description = snd (snd k), match_count = matched,
                         total_symptoms = tot, confidence_score = c\<rparr>)"

fun map_result :: "('a \<Rightarrow> 'e + 'b) \<Rightarrow> 'a list \<Rightarrow> 'e + 'b list" where
  "map_result f [] = Inr []"
| "map_result f (x # xs) =
     (case f x of
        Inl e \<Rightarrow> Inl e
      | Inr y \<Rightarrow> (case map_result f xs of Inl e \<Rightarrow> Inl e | Inr ys \<Rightarrow> Inr (y # ys)))"

text \<open>
  \<^verbatim>\<open>ORDER BY 6 DESC, 4 DESC\<close>: the confidence descending (in PostgreSQL a NULL sorts
  before every value when the order is descending), then the match count descending. The
  key below is ascending in exactly that order. SQL leaves the order of rows that agree on
  both columns to the executor; the model sorts stably, so such rows stay in the order in
  which their groups come out of the join.
\<close>

definition order_by_key :: "diagnosis_row \<Rightarrow> int \<times> int \<times> int" where
  "order_by_key r =
     (case confidence_score r of
        None \<Rightarrow> (0, 0, - int (match_count r))
      | Some c \<Rightarrow> (1, - c, - int (match_count r)))"

definition surviving_groups :: "catalog \<Rightarrow> int list \<Rightarrow> group_key list" where
  \<comment> \<open>\<^verbatim>\<open>HAVING COUNT(DISTINCT ds.symptom_id) > 0\<close>\<close>
  "surviving_groups db symptom_ids =
     (let rows = joined_rows db symptom_ids
      in filter (\<lambda>k. count_distinct_symptom_id (group_of rows k) > 0) (group_keys rows))"

definition diagnose :: "catalog \<Rightarrow> int list \<Rightarrow> sql_error + diagnosis_row list" where
  "diagnose db symptom_ids =
     (case map_result (select_row db (joined_rows db symptom_ids))
                      (surviving_groups db symptom_ids) of
        Inl e \<Rightarrow> Inl e
      | Inr rs \<Rightarrow> Inr (take 10 (sort_key order_by_key rs)))"

text \<open>
  What the statement itself fixes about its result. \<^verbatim>\<open>ORDER BY 6 DESC, 4 DESC\<close> asks
  for the rows in the order of the key and says nothing about rows of equal key, and
  \<^verbatim>\<open>LIMIT 10\<close> keeps the first ten of whatever order the executor produced. So an output
  the statement admits is the first ten of any arrangement of the candidate rows that is
  sorted by the key; \<open>diagnose\<close> above computes one of them.
\<close>

definition admissible_output :: "catalog \<Rightarrow> int list \<Rightarrow> diagnosis_row list \<Rightarrow> bool" where
  "admissible_output db symptom_ids out \<longleftrightarrow>
     (\<exists>rs cands.
        map_result (select_row db (joined_rows db symptom_ids))
                   (surviving_groups db symptom_ids) = Inr rs
        \<and> mset cands = mset rs \<and> sorted (map order_by_key cands) \<and> out = take 10 cands)"

section \<open>The service layer, \<^verbatim>\<open>app/services/diagnose_service.py\<close>\<close>

text \<open>
  Strings are ASCII: \<^verbatim>\<open>str.strip()\<close> removes the ASCII white space of Python
  (\<^verbatim>\<open>\t \n \v \f \r\<close>, the separators \<^verbatim>\<open>0x1c\<close> to \<^verbatim>\<open>0x1f\<close>, and the space) from
  both ends, and \<^verbatim>\<open>str.lower()\<close> and SQL's \<^verbatim>\<open>LOWER\<close> map \<^verbatim>\<open>A\<close> to \<^verbatim>\<open>Z\<close> to
  \<^verbatim>\<open>a\<close> to \<^verbatim>\<open>z\<close> and leave every other character alone.
\<close>

definition isspace :: "char \<Rightarrow> bool" where
  "isspace c = (let n = (of_char c :: nat) in (9 \<le> n \<and> n \<le> 13) \<or> (28 \<le> n \<and> n \<le> 32))"

definition strip :: "string \<Rightarrow> string" where
  "strip s = rev (dropWhile isspace (rev (dropWhile isspace s)))"

definition lower_char :: "char \<Rightarrow> char" where
  "lower_char c =
     (let n = (of_char c :: nat) in if 65 \<le> n \<and> n \<le> 90 then char_of (n + 32) else c)"

definition lower :: "string \<Rightarrow> string" where
  "lower s = map lower_char s"

definition fetchone :: "'a list \<Rightarrow> 'a option" where
  "fetchone rows = (case rows of [] \<Rightarrow> None | r # _ \<Rightarrow> Some r)"

text \<open>\<^verbatim>\<open>SELECT id, name FROM symptoms WHERE LOWER(name) = %s\<close>\<close>

definition select_symptom :: "catalog \<Rightarrow> string \<Rightarrow> symptom list" where
  "select_symptom db symptom_clean =
     filter (\<lambda>s. lower (s_name s) = symptom_clean) (symptoms_table db)"

text \<open>
  The loop of \<^verbatim>\<open>get_symptom_ids\<close>, with its two accumulators \<^verbatim>\<open>symptom_ids\<close> and
  \<^verbatim>\<open>matched_symptoms\<close>.
\<close>

fun get_symptom_ids_loop ::
  "catalog \<Rightarrow> string list \<Rightarrow> int list \<Rightarrow> string list \<Rightarrow> int list \<times> string list" where
  "get_symptom_ids_loop db [] symptom_ids matched_symptoms = (symptom_ids, matched_symptoms)"
| "get_symptom_ids_loop db (symptom_name # rest) symptom_ids matched_symptoms =
     (let symptom_clean = lower (strip symptom_name)
      in case fetchone (select_symptom db symptom_clean) of
           None \<Rightarrow> get_symptom_ids_loop db rest symptom_ids matched_symptoms
         | Some result \<Rightarrow>
             get_symptom_ids_loop db rest (symptom_ids @ [s_id result])
                                  (matched_symptoms @ [s_name result]))"

definition get_symptom_ids :: "catalog \<Rightarrow> string list \<Rightarrow> int list \<times> string list" where
  "get_symptom_ids db symptom_names = get_symptom_ids_loop db symptom_names [] []"

text \<open>
  \<^verbatim>\<open>SELECT recommendation_text FROM recommendations WHERE disease_id = %s
  ORDER BY precaution_order\<close>: ascending, a NULL ordinal after every value; rows of one
  ordinal stay in table order.
\<close>

definition precaution_key :: "recommendation \<Rightarrow> int \<times> int" where
  "precaution_key r = (case precaution_order r of None \<Rightarrow> (1, 0) | Some n \<Rightarrow> (0, n))"

definition recommendation_rows :: "catalog \<Rightarrow> int \<Rightarrow> recommendation list" where
  "recommendation_rows db i =
     sort_key precaution_key (filter (\<lambda>r. r_disease_id r = i) (recommendations_table db))"

definition get_recommendations :: "catalog \<Rightarrow> int \<Rightarrow> string list" where
  "get_recommendations db i = map recommendation_text (recommendation_rows db i)"

record diagnosis_result = diagnosis_row +
  recommendations :: "string list"

definition with_recommendations :: "catalog \<Rightarrow> diagnosis_row \<Rightarrow> diagnosis_result" where
  "with_recommendations db row =
     \<lparr>disease_id = disease_id row, disease_name = disease_name row,
      description = description row, match_count = match_count row,
      total_symptoms = total_symptoms row, confidence_score = confidence_score row,
      recommendations = get_recommendations db (disease_id row)\<rparr>"

definition perform_diagnosis :: "catalog \<Rightarrow> int list \<Rightarrow> sql_error + diagnosis_result list" where
  "perform_diagnosis db symptom_ids =
     (case diagnose db symptom_ids of
        Inl e \<Rightarrow> Inl e
      | Inr rows \<Rightarrow> Inr (map (with_recommendations db) rows))"

section \<open>The endpoint \<^verbatim>\<open>POST /diagnose\<close>, \<^verbatim>\<open>app/api/diagnose.py\<close>\<close>

text \<open>
  The body of \<^verbatim>\<open>diagnose_symptoms\<close>. Its \<^verbatim>\<open>try\<close> turns every exception into an
  \<^verbatim>\<open>HTTPException\<close> of status 500; the exceptions the model has are an error of the
  stored function and the \<^verbatim>\<open>TypeError\<close> of \<^verbatim>\<open>float(None)\<close> on a NULL confidence.
  \<^verbatim>\<open>float\<close> of a 32-bit integer is exact, so the score stays an integer here. Beside
  its outcome the handler returns the service operations it called, in order.
\<close>

record DiagnoseResult =
  res_disease_id :: int
  res_disease_name :: string
  res_description :: "string option"
  res_match_count :: nat
  res_total_symptoms :: nat
  res_confidence_score :: int
  res_recommendations :: "string list"

record DiagnoseResponse =
  status :: string
  message :: string
  input_symptoms :: "string list"
  matched_symptoms :: "string list"
  results :: "DiagnoseResult list"








section \<open>Name resolution as the specification words it\<close>

text \<open>
  The symptom a raw name resolves to: trim, lowercase, and take the first symptom of the
  catalog whose lowercased name is equal to the result.
\<close>

definition resolve_name :: "catalog \<Rightarrow> string \<Rightarrow> symptom option" where
  "resolve_name db raw = find (\<lambda>s. lower (s_name s) = lower (strip raw)) (symptoms_table db)"

section \<open>Example catalogs\<close>

text \<open>
  Scenario A of the specification: four symptoms and three diseases, no recommendations.
\<close>

definition scenario_A :: catalog where
  "scenario_A =
     \<lparr>symptoms_table =
        [\<lparr>s_id = 1, s_name = ''fever'', s_severity_weight = Some 5\<rparr>,
         \<lparr>s_id = 2, s_name = ''headache'', s_severity_weight = Some 5\<rparr>,
         \<lparr>s_id = 3, s_name = ''cough'', s_severity_weight = Some 5\<rparr>,
         \<lparr>s_id = 4, s_name = ''fatigue'', s_severity_weight = Some 5\<rparr>],
      diseases_table =
        [\<lparr>d_id = 1, d_name = ''Common Cold'', d_description = None\<rparr>,
         \<lparr>d_id = 2, d_name = ''Flu'', d_description = None\<rparr>,
         \<lparr>d_id = 3, d_name = ''Migraine'', d_description = None\<rparr>],
      disease_symptoms_table =
        [\<lparr>ds_disease_id = 1, ds_symptom_id = 1\<rparr>,
         \<lparr>ds_disease_id = 1, ds_symptom_id = 3\<rparr>,
         \<lparr>ds_disease_id = 1, ds_symptom_id = 4\<rparr>,
         \<lparr>ds_disease_id = 2, ds_symptom_id = 1\<rparr>,
         \<lparr>ds_disease_id = 2, ds_symptom_id = 2\<rparr>,
         \<lparr>ds_disease_id = 2, ds_symptom_id = 3\<rparr>,
         \<lparr>ds_disease_id = 2, ds_symptom_id = 4\<rparr>,
         \<lparr>ds_disease_id = 3, ds_symptom_id = 2\<rparr>],
      recommendations_table = []\<rparr>"

definition migraine_row :: diagnosis_row where
  "migraine_row =
     \<lparr>disease_id = 3, disease_name = ''Migraine'', description = None,
      match_count = 1, total_symptoms = 1, confidence_score = Some 100\<rparr>"

definition flu_row :: diagnosis_row where
  "flu_row =
     \<lparr>disease_id = 2, disease_name = ''Flu'', description = None,
      match_count = 3, total_symptoms = 4, confidence_score = Some 75\<rparr>"

definition common_cold_row :: "int \<Rightarrow> diagnosis_row" where
  "common_cold_row c =
     \<lparr>disease_id = 1, disease_name = ''Common Cold'', description = None,
      match_count = 2, total_symptoms = 3, confidence_score = Some c\<rparr>"

text \<open>
  A catalog with recommendations: those of the flu are stored out of their precaution
  order and one has no ordinal; the migraine has none. Symptom names are stored with
  capitals.
\<close>

definition clinic :: catalog where
  "clinic =
     \<lparr>symptoms_table =
        [\<lparr>s_id = 1, s_name = ''Fever'', s_severity_weight = Some 7\<rparr>,
         \<lparr>s_id = 2, s_name = ''Headache'', s_severity_weight = None\<rparr>,
         \<lparr>s_id = 3, s_name = ''head'', s_severity_weight = Some 5\<rparr>],
      diseases_table =
        [\<lparr>d_id = 2, d_name = ''Flu'', d_description = Some ''Influenza''\<rparr>,
         \<lparr>d_id = 3, d_name = ''Migraine'', d_description = None\<rparr>],
      disease_symptoms_table =
        [\<lparr>ds_disease_id = 2, ds_symptom_id = 1\<rparr>,
         \<lparr>ds_disease_id = 2, ds_symptom_id = 2\<rparr>,
         \<lparr>ds_disease_id = 3, ds_symptom_id = 2\<rparr>],
      recommendations_table =
        [\<lparr>r_disease_id = 2, recommendation_text = ''see a doctor'', precaution_order = None\<rparr>,
         \<lparr>r_disease_id = 2, recommendation_text = ''rest'', precaution_order = Some 2\<rparr>,
         \<lparr>r_disease_id = 7, recommendation_text = ''exercise'', precaution_order = Some 0\<rparr>,
         \<lparr>r_disease_id = 2, recommendation_text = ''drink water'', precaution_order = Some 1\<rparr>]\<rparr>"

text \<open>
  Twelve diseases that all have the one symptom 1: more candidates than the limit of 10.
\<close>

definition twelve :: catalog where
  "twelve =
     \<lparr>symptoms_table = [\<lparr>s_id = 1, s_name = ''fever'', s_severity_weight = Some 5\<rparr>],
      diseases_table =
        map (\<lambda>(i, n). \<lparr>d_id = i, d_name = n, d_description = None\<rparr>)
          [(1, ''d1''), (2, ''d2''), (3, ''d3''), (4, ''d4''), (5, ''d5''), (6, ''d6''),
           (7, ''d7''), (8, ''d8''), (9, ''d9''), (10, ''d10''), (11, ''d11''), (12, ''d12'')],
      disease_symptoms_table =
        map (\<lambda>i. \<lparr>ds_disease_id = i, ds_symptom_id = 1\<rparr>)
          [1, 2, 3, 4, 5, 6, 7, 8, 9, 10, 11, 12],
      recommendations_table = []\<rparr>"

text \<open>The twelve candidate rows of that catalog for the symptom 1, in the order of the ids.\<close>

definition twelve_rows :: "diagnosis_row list" where
  "twelve_rows =
     map (\<lambda>(i, n). \<lparr>disease_id = i, disease_name = n, description = None,
                     match_count = 1, total_symptoms = 1, confidence_score = Some 100\<rparr>)
       [(1, ''d1''), (2, ''d2''), (3, ''d3''), (4, ''d4''), (5, ''d5''), (6, ''d6''),
        (7, ''d7''), (8, ''d8''), (9, ''d9''), (10, ''d10''), (11, ''d11''), (12, ''d12'')]"

section \<open>Rounding: the error of one \<^verbatim>\<open>float8\<close> operation\<close>

lemma round_half_even_bounds:
  assumes "0 < d"
  shows "2 * n \<le> 2 * (round_half_even n d * d) + d" and "2 * (round_half_even n d * d) \<le> 2 * n + d"
proof -
  define q r c where "q = n div d" and "r = n mod d" and "c = round_half_even n d"
  have n: "n = q * d + r" by (simp add: q_def r_def)
  have r: "r < d" using assms by (simp add: r_def)
  have c: "(c = q \<and> 2 * r \<le> d) \<or> (c = q + 1 \<and> d \<le> 2 * r)"
    by (simp add: c_def round_half_even_def Let_def q_def r_def)
  show "2 * n \<le> 2 * (c * d) + d"
    using n r c by (auto simp: add_mult_distrib)
  show "2 * (c * d) \<le> 2 * n + d"
    using n r c by (auto simp: add_mult_distrib)
qed

lemma round_half_even_real:
  assumes "0 < d"
  shows "\<bar>real (round_half_even n d) - real n / real d\<bar> \<le> 1 / 2"
proof -
  let ?c = "round_half_even n d"
  have "real (2 * n) \<le> real (2 * (?c * d) + d)"
    using round_half_even_bounds(1)[OF assms, of n] by (rule of_nat_mono)
  then have a: "2 * real n \<le> 2 * (real ?c * real d) + real d" by simp
  have "real (2 * (?c * d)) \<le> real (2 * n + d)"
    using round_half_even_bounds(2)[OF assms, of n] by (rule of_nat_mono)
  then have b: "2 * (real ?c * real d) \<le> 2 * real n + real d" by simp
  have d: "0 < real d" using assms by simp
  have a': "real n / real d \<le> real ?c + 1 / 2" using a d by (simp add: field_simps)
  have b': "real ?c \<le> real n / real d + 1 / 2" using b d by (simp add: field_simps)
  show ?thesis using a' b' by linarith
qed

lemma scale_real:
  assumes "0 < d"
  shows "real (n * 2 ^ nat (- e)) / real (d * 2 ^ nat e) = real n / real d * 2 powr (- real_of_int e)"
proof (cases "0 \<le> e")
  case True
  then have "2 powr (real_of_int e) = (2::real) ^ nat e"
    by (simp add: powr_realpow[symmetric])
  then show ?thesis using True by (simp add: powr_minus field_simps)
next
  case False
  then have "2 powr (- real_of_int e) = (2::real) ^ nat (- e)"
    by (simp add: powr_realpow[symmetric])
  then show ?thesis using False by (simp add: field_simps)
qed


lemma floorlog2_real:
  assumes "0 < n"
  shows "real n < 2 ^ floorlog 2 n" and "(2::real) ^ floorlog 2 n \<le> 2 * real n"
proof -
  have b: "2 ^ (floorlog 2 n - 1) \<le> n \<and> n < 2 ^ floorlog 2 n"
    using floorlog_bounds[of n 2] assms by simp
  have pos: "0 < floorlog 2 n" using assms floorlog_eq_zero_iff[of 2 n] by simp
  from b have "real n < real (2 ^ floorlog 2 n)" by (simp only: of_nat_less_iff)
  then show "real n < 2 ^ floorlog 2 n" by simp
  from b have "real (2 ^ (floorlog 2 n - 1)) \<le> real n" by (simp only: of_nat_le_iff)
  then have "(2::real) ^ (floorlog 2 n - 1) \<le> real n" by simp
  moreover have "(2::real) ^ floorlog 2 n = 2 * 2 ^ (floorlog 2 n - 1)"
    using pos by (cases "floorlog 2 n") simp_all
  ultimately show "(2::real) ^ floorlog 2 n \<le> 2 * real n" by simp
qed

lemma float8_round_error:
  assumes "0 < d"
  shows "0 < snd (float8_round n d)"
    and "\<bar>float8_val (float8_round n d) - real n / real d\<bar> \<le> (real n / real d) / 2 ^ 53"
proof -
  show "0 < snd (float8_round n d)"
    by (simp add: float8_round_def Let_def)
  show "\<bar>float8_val (float8_round n d) - real n / real d\<bar> \<le> (real n / real d) / 2 ^ 53"
  proof (cases "n = 0")
    case True
    then show ?thesis by (simp add: float8_round_def float8_val_def)
  next
    case False
    then have n: "0 < n" by simp
    define X where "X = real n / real d"
    define e0 where "e0 = int (floorlog 2 n) - int (floorlog 2 d) - 53"
    define e where "e = (if 2 ^ 53 * (d * 2 ^ nat e0) \<le> n * 2 ^ nat (- e0) then e0 + 1 else e0)"
    define m where "m = round_half_even (n * 2 ^ nat (- e)) (d * 2 ^ nat e)"
    define Y0 where "Y0 = X * 2 powr (- real_of_int e0)"
    define Y where "Y = X * 2 powr (- real_of_int e)"
    have fr: "float8_round n d = (m * 2 ^ nat e, 2 ^ nat (- e))"
      using False by (simp add: float8_round_def Let_def m_def e_def e0_def)
    have Xpos: "0 < X" using n assms by (simp add: X_def)
    have pw: "2 powr (- real_of_int e0) = 2 ^ floorlog 2 d * 2 ^ 53 / 2 ^ floorlog 2 n"
    proof -
      have "- real_of_int e0 = real (floorlog 2 d) + 53 - real (floorlog 2 n)"
        by (simp add: e0_def)
      then show ?thesis
        by (simp add: powr_diff powr_add powr_realpow)
    qed
    define a where "a = real n / 2 ^ floorlog 2 n"
    define b where "b = 2 ^ floorlog 2 d / real d"
    have Y0_eq: "Y0 = (a * b) * 9007199254740992"
      by (simp add: Y0_def X_def pw a_def b_def mult_ac)
    have n1: "a < 1" and n2: "1 / 2 \<le> a"
      using floorlog2_real[OF n] by (simp_all add: a_def field_simps)
    have d1: "1 < b" and d2: "b \<le> 2"
      using floorlog2_real[OF assms] assms by (simp_all add: b_def field_simps)
    have t1: "a * 1 < a * b" using n2 d1 by (intro mult_strict_left_mono) simp_all
    have ab_lo: "1 / 2 < a * b" using t1 n2 by linarith
    have t2: "a * b \<le> a * 2" using n2 d2 by (intro mult_left_mono) simp_all
    have ab_hi: "a * b < 2" using t2 n1 by linarith
    have Y0_lo: "4503599627370496 < Y0" using ab_lo unfolding Y0_eq by linarith
    have Y0_hi: "Y0 < 18014398509481984" using ab_hi unfolding Y0_eq by linarith
    have cond: "(9007199254740992 * (d * 2 ^ nat e0) \<le> n * 2 ^ nat (- e0)) \<longleftrightarrow> 9007199254740992 \<le> Y0"
    proof -
      have "(9007199254740992 * (d * 2 ^ nat e0) \<le> n * 2 ^ nat (- e0))
            \<longleftrightarrow> real (9007199254740992 * (d * 2 ^ nat e0)) \<le> real (n * 2 ^ nat (- e0))"
        by (simp only: of_nat_le_iff)
      also have "\<dots> \<longleftrightarrow> 9007199254740992 \<le> real (n * 2 ^ nat (- e0)) / real (d * 2 ^ nat e0)"
        using assms by (simp add: field_simps)
      also have "\<dots> \<longleftrightarrow> 9007199254740992 \<le> Y0"
        by (simp only: scale_real[OF assms] Y0_def X_def)
      finally show ?thesis .
    qed
    have Y_lo: "4503599627370496 \<le> Y"
    proof (cases "9007199254740992 \<le> Y0")
      case True
      then have "e = e0 + 1" by (simp add: e_def cond)
      then have "Y = Y0 / 2" by (simp add: Y_def Y0_def powr_diff powr_minus field_simps powr_add)
      with True show ?thesis by simp
    next
      case False
      then have "e = e0" by (simp add: e_def cond)
      then have "Y = Y0" by (simp add: Y_def Y0_def)
      with Y0_lo show ?thesis by simp
    qed
    have ND: "real (n * 2 ^ nat (- e)) / real (d * 2 ^ nat e) = Y"
      by (simp only: scale_real[OF assms] Y_def X_def)
    have D: "0 < d * 2 ^ nat e" using assms by simp
    have mY: "\<bar>real m - Y\<bar> \<le> 1 / 2"
      using round_half_even_real[OF D, of "n * 2 ^ nat (- e)"] by (simp only: ND m_def)
    have V: "float8_val (float8_round n d) = real m * 2 powr (real_of_int e)"
      using scale_real[of 1 m "- e"] by (simp add: fr float8_val_def)
    have XY: "X = Y * 2 powr (real_of_int e)"
      by (simp add: Y_def powr_minus field_simps)
    have "\<bar>float8_val (float8_round n d) - X\<bar> = \<bar>real m - Y\<bar> * 2 powr (real_of_int e)"
      by (simp add: V XY abs_mult flip: left_diff_distrib)
    also have "\<dots> \<le> 1 / 2 * 2 powr (real_of_int e)"
      using mY by (intro mult_right_mono) simp_all
    also have "\<dots> \<le> (Y / 4503599627370496) / 2 * 2 powr (real_of_int e)"
      using Y_lo by (intro mult_right_mono) (simp_all add: field_simps)
    also have "\<dots> = X / 2 ^ 53" by (simp add: XY)
    finally show ?thesis by (simp add: X_def)
  qed
qed


lemma float8_round_rel:
  assumes "0 < d"
  shows "real n / real d * (1 - 1 / 2 ^ 53) \<le> float8_val (float8_round n d)"
    and "float8_val (float8_round n d) \<le> real n / real d * (1 + 1 / 2 ^ 53)"
  using float8_round_error(2)[OF assms, of n] by (simp_all add: abs_le_iff algebra_simps)

lemma floorlog2_numeral: "floorlog 2 (numeral k) = floorlog 2 (numeral k div 2) + 1"
  by (subst compute_floorlog) simp

lemma floorlog2_one: "floorlog 2 (Suc 0) = 1" "floorlog 2 1 = 1"
  by (subst compute_floorlog, simp)+

lemma floorlog2_zero: "floorlog 2 0 = 0"
  by (simp add: floorlog_def)

lemmas float8_eval = float8_mul_def float8_div_def float8_of_nat_def float8_round_def
  round_half_even_def float8_to_int4_def Let_def floorlog2_numeral floorlog2_one floorlog2_zero

lemma float8_of_nat_100:
  "float8_val (float8_of_nat 100) = 100" "0 < snd (float8_of_nat 100)"
proof -
  have "float8_of_nat 100 = (7036874417766400, 70368744177664)"
    by (simp add: float8_eval)
  then show "float8_val (float8_of_nat 100) = 100" "0 < snd (float8_of_nat 100)"
    by (simp_all add: float8_val_def)
qed

lemma float8_val_mult:
  "real (fst a * fst b) / real (snd a * snd b) = float8_val a * float8_val b"
  by (simp add: float8_val_def)

lemma confidence_value:
  assumes t: "0 < t" and mt: "m \<le> t"
  defines "p \<equiv> float8_mul (float8_div (float8_of_nat m) (float8_of_nat t)) (float8_of_nat 100)"
  shows "0 < snd p" and "\<bar>float8_val p - 100 * real m / real t\<bar> \<le> 1 / 1099511627776"
proof -
  define u :: real where "u = 1 / 2 ^ 53"
  define fm ft q where "fm = float8_of_nat m" and "ft = float8_of_nat t" and "q = float8_div fm ft"
  define x where "x = real m / real t"
  have x0: "0 \<le> x" and x1: "x \<le> 1" using t mt by (simp_all add: x_def)
  have u: "0 < u" "u < 1 / 1000" by (simp_all add: u_def)
  have fm_pos: "0 < snd fm" by (simp add: fm_def float8_of_nat_def float8_round_error(1))
  have ft_pos: "0 < snd ft" by (simp add: ft_def float8_of_nat_def float8_round_error(1))
  have vm: "real m * (1 - u) \<le> float8_val fm" "float8_val fm \<le> real m * (1 + u)"
    using float8_round_rel[of 1 m] by (simp_all add: fm_def float8_of_nat_def u_def)
  have vt: "real t * (1 - u) \<le> float8_val ft" "float8_val ft \<le> real t * (1 + u)"
    using float8_round_rel[of 1 t] by (simp_all add: ft_def float8_of_nat_def u_def)
  have vt_pos: "0 < float8_val ft"
  proof -
    have "0 < real t * (1 - u)" using t u by simp
    with vt(1) show ?thesis by linarith
  qed
  then have ft_num: "0 < fst ft"
    by (cases "fst ft = 0") (simp_all add: float8_val_def)
  have vm0: "0 \<le> float8_val fm" by (simp add: float8_val_def)
  define r where "r = float8_val fm / float8_val ft"
  have q_den: "0 < snd fm * fst ft" using fm_pos ft_num by simp
  have q_in: "real (fst fm * snd ft) / real (snd fm * fst ft) = r"
    using ft_pos by (simp add: r_def float8_val_def)
  have vq: "r * (1 - u) \<le> float8_val q" "float8_val q \<le> r * (1 + u)"
    using float8_round_rel[OF q_den, of "fst fm * snd ft"]
    by (simp_all only: q_in q_def float8_div_def u_def)
  have q_pos: "0 < snd q" by (simp add: q_def float8_div_def float8_round_error(1)[OF q_den])
  have p_den: "0 < snd q * snd (float8_of_nat 100)" using q_pos float8_of_nat_100(2) by simp
  have p_in: "real (fst q * fst (float8_of_nat 100)) / real (snd q * snd (float8_of_nat 100))
                = float8_val q * 100"
    by (simp only: float8_val_mult float8_of_nat_100(1))
  have p_eq: "p = float8_round (fst q * fst (float8_of_nat 100)) (snd q * snd (float8_of_nat 100))"
    by (simp add: p_def float8_mul_def q_def fm_def ft_def)
  have vp: "float8_val q * 100 * (1 - u) \<le> float8_val p" "float8_val p \<le> float8_val q * 100 * (1 + u)"
    using float8_round_rel[OF p_den, of "fst q * fst (float8_of_nat 100)"]
    by (simp_all only: p_in p_eq u_def)
  show "0 < snd p" by (simp only: p_eq float8_round_error(1)[OF p_den])
  have tu: "0 < real t * (1 - u)" using t u by simp
  have mu: "0 \<le> real m * (1 + u)" using u by simp
  have r_hi: "r \<le> x * ((1 + u) / (1 - u))"
  proof -
    have "float8_val fm / float8_val ft \<le> (real m * (1 + u)) / (real t * (1 - u))"
      using mu vm(2) tu vt(1) by (rule frac_le)
    then show ?thesis by (simp add: x_def r_def)
  qed
  have r_lo: "x * ((1 - u) / (1 + u)) \<le> r"
  proof -
    have "(real m * (1 - u)) / (real t * (1 + u)) \<le> float8_val fm / float8_val ft"
      using vm0 vm(1) vt_pos vt(2) by (rule frac_le)
    then show ?thesis by (simp add: x_def r_def)
  qed
  have r0: "0 \<le> r" using vm0 vt_pos by (simp add: r_def)
  have q0: "0 \<le> float8_val q" by (simp add: float8_val_def)
  have hi: "float8_val p \<le> 100 * x * ((1 + u) ^ 3 / (1 - u))"
  proof -
    have "float8_val q \<le> x * ((1 + u) / (1 - u)) * (1 + u)"
      using vq(2) r_hi u by (meson mult_right_mono order_trans less_imp_le add_nonneg_nonneg zero_le_one)
    then have "float8_val q * 100 * (1 + u) \<le> x * ((1 + u) / (1 - u)) * (1 + u) * 100 * (1 + u)"
      using u by (intro mult_right_mono) simp_all
    with vp(2) show ?thesis by (simp add: power3_eq_cube mult_ac)
  qed
  have lo: "100 * x * ((1 - u) ^ 3 / (1 + u)) \<le> float8_val p"
  proof -
    have "x * ((1 - u) / (1 + u)) * (1 - u) \<le> r * (1 - u)"
      using r_lo u by (intro mult_right_mono) simp_all
    with vq(1) have "x * ((1 - u) / (1 + u)) * (1 - u) \<le> float8_val q" by linarith
    then have "x * ((1 - u) / (1 + u)) * (1 - u) * 100 * (1 - u) \<le> float8_val q * 100 * (1 - u)"
      using u by (intro mult_right_mono) simp_all
    with vp(1) show ?thesis by (simp add: power3_eq_cube mult_ac)
  qed
  have k1: "(1 + u) ^ 3 / (1 - u) \<le> 1 + 1 / 2 ^ 50" by (simp add: u_def power3_eq_cube)
  have k2: "1 - 1 / 2 ^ 50 \<le> (1 - u) ^ 3 / (1 + u)" by (simp add: u_def power3_eq_cube)
  have "float8_val p \<le> 100 * x * (1 + 1 / 2 ^ 50)"
    using hi k1 x0 by (meson mult_left_mono order_trans mult_nonneg_nonneg zero_le_numeral)
  then have A: "float8_val p \<le> 100 * x + 100 * x / 2 ^ 50" by (simp add: algebra_simps)
  have "100 * x * (1 - 1 / 2 ^ 50) \<le> float8_val p"
    using lo k2 x0 by (meson mult_left_mono order_trans mult_nonneg_nonneg zero_le_numeral)
  then have B: "100 * x - 100 * x / 2 ^ 50 \<le> float8_val p" by (simp add: algebra_simps)
  have "\<bar>float8_val p - 100 * x\<bar> \<le> 100 * x / 2 ^ 50"
    using A B by linarith
  also have "\<dots> \<le> 100 * 1 / 2 ^ 50" using x1 by (intro divide_right_mono mult_left_mono) simp_all
  also have "\<dots> \<le> 1 / 1099511627776" by simp
  finally show "\<bar>float8_val p - 100 * real m / real t\<bar> \<le> 1 / 1099511627776" by (simp add: x_def)
qed


lemma confidence_expr_ok:
  assumes t: "0 < t" and mt: "m \<le> t"
  shows "\<exists>c. confidence_expr m t = Inr (Some (int c)) \<and> c \<le> 100
             \<and> \<bar>real c - 100 * real m / real t\<bar> \<le> 1 / 2 + 1 / 1099511627776"
proof -
  define p where "p = float8_mul (float8_div (float8_of_nat m) (float8_of_nat t)) (float8_of_nat 100)"
  define c where "c = round_half_even (fst p) (snd p)"
  have sp: "0 < snd p" and vp: "\<bar>float8_val p - 100 * real m / real t\<bar> \<le> 1 / 1099511627776"
    unfolding p_def using confidence_value[OF t mt] by simp_all
  have cp: "\<bar>real c - float8_val p\<bar> \<le> 1 / 2"
    using round_half_even_real[OF sp, of "fst p"] by (simp add: c_def float8_val_def)
  have err: "\<bar>real c - 100 * real m / real t\<bar> \<le> 1 / 2 + 1 / 1099511627776"
    using cp vp by linarith
  have "real m / real t \<le> 1" using t mt by simp
  then have "100 * real m / real t \<le> 100" by simp
  with err have "real c < 101" by linarith
  then have c100: "c \<le> 100" by simp
  then have "float8_to_int4 p = Inr (int c)"
    by (simp add: float8_to_int4_def Let_def c_def)
  then have "confidence_expr m t = Inr (Some (int c))"
    using t by (simp add: confidence_expr_def p_def)
  with c100 err show ?thesis by blast
qed

lemma confidence_nearest:
  assumes t: "0 < t" and mt: "m \<le> t" and small: "t < 2 ^ 32"
    and c: "confidence_expr m t = Inr (Some c)"
  shows "\<bar>2 * (c * int t - 100 * int m)\<bar> \<le> int t"
proof -
  obtain c' where c': "confidence_expr m t = Inr (Some (int c'))"
    and err: "\<bar>real c' - 100 * real m / real t\<bar> \<le> 1 / 2 + 1 / 1099511627776"
    using confidence_expr_ok[OF t mt] by blast
  from c c' have cc: "c = int c'" by simp
  have tr: "0 < real t" using t by simp
  have "\<bar>real c' - 100 * real m / real t\<bar> * real t \<le> (1 / 2 + 1 / 1099511627776) * real t"
    using err tr by (intro mult_right_mono) simp_all
  moreover have "\<bar>real c' - 100 * real m / real t\<bar> * real t = \<bar>real c' * real t - 100 * real m\<bar>"
    using tr by (simp add: abs_mult_pos[symmetric] field_simps del: abs_mult_pos)
  ultimately have e1: "\<bar>real c' * real t - 100 * real m\<bar> \<le> real t / 2 + real t / 1099511627776"
    by (simp add: algebra_simps)
  have "real t < 2 ^ 32" using small by (metis of_nat_less_iff of_nat_numeral of_nat_power)
  then have e2: "real t / 1099511627776 < 1 / 2" by simp
  define A where "A = \<bar>real c' * real t - 100 * real m\<bar>"
  define s where "s = real t / 1099511627776"
  have "A \<le> real t / 2 + s" "s < 1 / 2" using e1 e2 by (simp_all only: A_def s_def)
  then have "2 * A < real t + 1" by linarith
  then have "2 * \<bar>real c' * real t - 100 * real m\<bar> < real t + 1" by (simp only: A_def)
  then have lt: "2 * A < real t + 1" by (simp only: A_def)
  define z where "z = int c' * int t - 100 * int m"
  have zr: "\<bar>real_of_int z\<bar> = A" by (simp add: z_def A_def)
  have "real_of_int \<bar>2 * z\<bar> = 2 * \<bar>real_of_int z\<bar>" by (simp add: abs_mult)
  with lt zr have "real_of_int \<bar>2 * z\<bar> < real_of_int (int t + 1)" by simp
  then have "\<bar>2 * z\<bar> < int t + 1"
    by (simp only: of_int_less_iff)
  then show ?thesis by (simp add: cc z_def)
qed

section \<open>The join, the groups and the select list\<close>

lemma ne_in_set: "x \<in> set xs \<Longrightarrow> xs \<noteq> []"
  by (cases xs) simp_all

lemma map_result_total:
  assumes "\<And>x. x \<in> set xs \<Longrightarrow> \<exists>y. f x = Inr y"
  shows "\<exists>ys. map_result f xs = Inr ys"
  using assms
proof (induction xs)
  case Nil
  then show ?case by simp
next
  case (Cons x xs)
  obtain y where y: "f x = Inr y" using Cons.prems[of x] by auto
  obtain ys where ys: "map_result f xs = Inr ys" using Cons.IH Cons.prems by auto
  show ?case by (simp add: y ys)
qed

lemma map_result_rel:
  "map_result f xs = Inr ys \<Longrightarrow> list_all2 (\<lambda>x y. f x = Inr y) xs ys"
proof (induction xs arbitrary: ys)
  case Nil
  then show ?case by simp
next
  case (Cons x xs)
  then show ?case by (auto split: sum.splits)
qed

lemma map_result_mem:
  assumes "map_result f xs = Inr ys" and "y \<in> set ys"
  shows "\<exists>x \<in> set xs. f x = Inr y"
proof -
  from assms(2) obtain i where i: "i < length ys" "ys ! i = y"
    by (auto simp: in_set_conv_nth)
  from map_result_rel[OF assms(1)] have l: "length xs = length ys"
    and n: "\<And>j. j < length ys \<Longrightarrow> f (xs ! j) = Inr (ys ! j)"
    by (auto simp: list_all2_conv_all_nth)
  from i l n[of i] show ?thesis by (metis nth_mem)
qed


lemma joined_rows_mem:
  "(d, ds) \<in> set (joined_rows db ids) \<longleftrightarrow>
     d \<in> set (diseases_table db) \<and> ds \<in> set (disease_symptoms_table db)
     \<and> d_id d = ds_disease_id ds \<and> ds_symptom_id ds \<in> set ids"
  by (auto simp: joined_rows_def)

lemma joined_rows_cong:
  "set ids = set ids' \<Longrightarrow> joined_rows db ids = joined_rows db ids'"
  by (simp add: joined_rows_def)

lemma group_of_nonempty:
  assumes "k \<in> set (group_keys rows)"
  shows "group_of rows k \<noteq> []"
proof -
  from assms obtain row where "row \<in> set rows" "key_of (fst row) = k"
    by (auto simp: group_keys_def)
  then have "row \<in> set (filter (\<lambda>row. key_of (fst row) = k) rows)" by simp
  then have "filter (\<lambda>row. key_of (fst row) = k) rows \<noteq> []" by (rule ne_in_set)
  then show ?thesis by (simp add: group_of_def)
qed

lemma group_of_joined:
  assumes "ds \<in> set (group_of (joined_rows db ids) k)"
  shows "ds \<in> set (disease_symptoms_table db)" and "ds_disease_id ds = fst k"
    and "ds_symptom_id ds \<in> set ids"
proof -
  from assms obtain d where m: "(d, ds) \<in> set (joined_rows db ids)" and k: "key_of d = k"
    by (auto simp: group_of_def)
  from m show "ds \<in> set (disease_symptoms_table db)" "ds_symptom_id ds \<in> set ids"
    by (simp_all add: joined_rows_mem)
  from m k show "ds_disease_id ds = fst k"
    by (auto simp: joined_rows_mem key_of_def)
qed

lemma count_distinct_pos:
  "g \<noteq> [] \<Longrightarrow> 0 < count_distinct_symptom_id g"
  by (simp add: count_distinct_symptom_id_def)

lemma count_distinct_le_total:
  "count_distinct_symptom_id (group_of (joined_rows db ids) k) \<le> count_disease_symptoms db (fst k)"
proof -
  let ?g = "group_of (joined_rows db ids) k"
  let ?all = "filter (\<lambda>ds2. ds_disease_id ds2 = fst k) (disease_symptoms_table db)"
  have sub: "set ?g \<subseteq> set ?all" using group_of_joined[of _ db ids k] by auto
  have "count_distinct_symptom_id ?g = card (ds_symptom_id ` set ?g)"
    by (simp add: count_distinct_symptom_id_def length_remdups_card_conv)
  also have "\<dots> \<le> card (ds_symptom_id ` set ?all)"
    using sub by (intro card_mono) auto
  also have "\<dots> \<le> card (set ?all)" by (rule card_image_le) simp
  also have "\<dots> \<le> length ?all" by (rule card_length)
  finally show ?thesis by (simp add: count_disease_symptoms_def)
qed

lemma select_row_ok:
  assumes "k \<in> set (group_keys (joined_rows db ids))"
  shows "\<exists>r c. select_row db (joined_rows db ids) k = Inr r
           \<and> disease_id r = fst k
           \<and> match_count r = count_distinct_symptom_id (group_of (joined_rows db ids) k)
           \<and> total_symptoms r = count_disease_symptoms db (fst k)
           \<and> 1 \<le> match_count r \<and> match_count r \<le> total_symptoms r
           \<and> confidence_score r = Some (int c) \<and> c \<le> 100
           \<and> confidence_expr (match_count r) (total_symptoms r) = Inr (Some (int c))"
proof -
  define m where "m = count_distinct_symptom_id (group_of (joined_rows db ids) k)"
  define t where "t = count_disease_symptoms db (fst k)"
  have m1: "1 \<le> m" using count_distinct_pos[OF group_of_nonempty[OF assms]] by (simp add: m_def)
  have mt: "m \<le> t" unfolding m_def t_def by (rule count_distinct_le_total)
  have t0: "0 < t" using m1 mt by simp
  obtain c where c: "confidence_expr m t = Inr (Some (int c))" "c \<le> 100"
    using confidence_expr_ok[OF t0 mt] by blast
  show ?thesis
    using c m1 mt by (simp add: select_row_def Let_def flip: m_def t_def)
qed

lemma surviving_groups_subset:
  "set (surviving_groups db ids) \<subseteq> set (group_keys (joined_rows db ids))"
  by (auto simp: surviving_groups_def Let_def)

lemma diagnose_total:
  "\<exists>rs. map_result (select_row db (joined_rows db ids)) (surviving_groups db ids) = Inr rs
        \<and> diagnose db ids = Inr (take 10 (sort_key order_by_key rs))"
proof -
  have "\<exists>rs. map_result (select_row db (joined_rows db ids)) (surviving_groups db ids) = Inr rs"
  proof (rule map_result_total)
    fix k assume "k \<in> set (surviving_groups db ids)"
    then have "k \<in> set (group_keys (joined_rows db ids))"
      using surviving_groups_subset by blast
    from select_row_ok[OF this]
    show "\<exists>y. select_row db (joined_rows db ids) k = Inr y" by blast
  qed
  then show ?thesis by (auto simp: diagnose_def)
qed

lemma diagnose_row:
  assumes "diagnose db ids = Inr out" and "r \<in> set out"
  shows "\<exists>k \<in> set (group_keys (joined_rows db ids)). select_row db (joined_rows db ids) k = Inr r"
proof -
  obtain rs where rs: "map_result (select_row db (joined_rows db ids)) (surviving_groups db ids) = Inr rs"
    and d: "diagnose db ids = Inr (take 10 (sort_key order_by_key rs))"
    using diagnose_total by blast
  from assms d have "r \<in> set (take 10 (sort_key order_by_key rs))" by simp
  then have "r \<in> set rs" by (auto dest: in_set_takeD)
  from map_result_mem[OF rs this] surviving_groups_subset show ?thesis by blast
qed


section \<open>Scenario A, evaluated\<close>

lemma select_row_eq:
  assumes "count_distinct_symptom_id (group_of rows k) = m"
    and "count_disease_symptoms db (fst k) = t"
    and "confidence_expr m t = Inr c"
  shows "select_row db rows k =
           Inr \<lparr>disease_id = fst k, disease_name = fst (snd k), description = snd (snd k),
                match_count = m, total_symptoms = t, confidence_score = c\<rparr>"
  using assms by (simp add: select_row_def)

lemma diagnose_eq:
  assumes "map_result (select_row db (joined_rows db ids)) (surviving_groups db ids) = Inr rs"
  shows "diagnose db ids = Inr (take 10 (sort_key order_by_key rs))"
  using assms by (simp add: diagnose_def)

lemma conf_1_1: "confidence_expr 1 1 = Inr (Some 100)"
  by (simp add: confidence_expr_def float8_eval)

lemma conf_3_4: "confidence_expr 3 4 = Inr (Some 75)"
  by (simp add: confidence_expr_def float8_eval)

lemma conf_2_3: "confidence_expr 2 3 = Inr (Some 67)"
  by (simp add: confidence_expr_def float8_eval)

lemma joined_A:
  "joined_rows scenario_A [1, 2, 3] =
     [(\<lparr>d_id = 1, d_name = ''Common Cold'', d_description = None\<rparr>,
       \<lparr>ds_disease_id = 1, ds_symptom_id = 1\<rparr>),
      (\<lparr>d_id = 1, d_name = ''Common Cold'', d_description = None\<rparr>,
       \<lparr>ds_disease_id = 1, ds_symptom_id = 3\<rparr>),
      (\<lparr>d_id = 2, d_name = ''Flu'', d_description = None\<rparr>,
       \<lparr>ds_disease_id = 2, ds_symptom_id = 1\<rparr>),
      (\<lparr>d_id = 2, d_name = ''Flu'', d_description = None\<rparr>,
       \<lparr>ds_disease_id = 2, ds_symptom_id = 2\<rparr>),
      (\<lparr>d_id = 2, d_name = ''Flu'', d_description = None\<rparr>,
       \<lparr>ds_disease_id = 2, ds_symptom_id = 3\<rparr>),
      (\<lparr>d_id = 3, d_name = ''Migraine'', d_description = None\<rparr>,
       \<lparr>ds_disease_id = 3, ds_symptom_id = 2\<rparr>)]"
  by (simp add: joined_rows_def scenario_A_def)

lemma groups_A:
  "surviving_groups scenario_A [1, 2, 3] =
     [(1, ''Common Cold'', None), (2, ''Flu'', None), (3, ''Migraine'', None)]"
  by (simp add: surviving_groups_def joined_A group_keys_def group_of_def key_of_def
      count_distinct_symptom_id_def)

lemma cold_A:
  "select_row scenario_A (joined_rows scenario_A [1, 2, 3]) (1, ''Common Cold'', None)
     = Inr (common_cold_row 67)"
proof -
  have m: "count_distinct_symptom_id
             (group_of (joined_rows scenario_A [1, 2, 3]) (1, ''Common Cold'', None)) = 2"
    by (simp add: joined_A group_of_def key_of_def count_distinct_symptom_id_def)
  have t: "count_disease_symptoms scenario_A (fst (1, ''Common Cold'', None)) = 3"
    by (simp add: count_disease_symptoms_def scenario_A_def)
  show ?thesis
    using select_row_eq[OF m t conf_2_3] by (simp add: common_cold_row_def)
qed

lemma flu_A:
  "select_row scenario_A (joined_rows scenario_A [1, 2, 3]) (2, ''Flu'', None) = Inr flu_row"
proof -
  have m: "count_distinct_symptom_id
             (group_of (joined_rows scenario_A [1, 2, 3]) (2, ''Flu'', None)) = 3"
    by (simp add: joined_A group_of_def key_of_def count_distinct_symptom_id_def)
  have t: "count_disease_symptoms scenario_A (fst (2, ''Flu'', None)) = 4"
    by (simp add: count_disease_symptoms_def scenario_A_def)
  show ?thesis
    using select_row_eq[OF m t conf_3_4] by (simp add: flu_row_def)
qed

lemma migraine_A:
  "select_row scenario_A (joined_rows scenario_A [1, 2, 3]) (3, ''Migraine'', None)
     = Inr migraine_row"
proof -
  have m: "count_distinct_symptom_id
             (group_of (joined_rows scenario_A [1, 2, 3]) (3, ''Migraine'', None)) = 1"
    by (simp add: joined_A group_of_def key_of_def count_distinct_symptom_id_def)
  have t: "count_disease_symptoms scenario_A (fst (3, ''Migraine'', None)) = 1"
    by (simp add: count_disease_symptoms_def scenario_A_def)
  show ?thesis
    using select_row_eq[OF m t conf_1_1] by (simp add: migraine_row_def)
qed

lemma sorted_A:
  "sort_key order_by_key [common_cold_row 67, flu_row, migraine_row]
     = [migraine_row, flu_row, common_cold_row 67]"
  by (simp add: order_by_key_def common_cold_row_def flu_row_def migraine_row_def)

lemma diagnose_A:
  "diagnose scenario_A [1, 2, 3] = Inr [migraine_row, flu_row, common_cold_row 67]"
proof -
  have "map_result (select_row scenario_A (joined_rows scenario_A [1, 2, 3]))
          (surviving_groups scenario_A [1, 2, 3])
        = Inr [common_cold_row 67, flu_row, migraine_row]"
    by (simp add: groups_A cold_A flu_A migraine_A)
  from diagnose_eq[OF this]
  have "diagnose scenario_A [1, 2, 3] = Inr (take 10 [migraine_row, flu_row, common_cold_row 67])"
    by (simp only: sorted_A)
  then show ?thesis by simp
qed

section \<open>The claims about the stored function\<close>

text \<open>
  Claim C4: for every input and every catalog, \<^verbatim>\<open>diagnose\<close> returns (it raises no
  error), and every candidate it returns has \<open>1 \<le> match_count \<le> total_symptoms\<close> and a
  confidence score that is not NULL and lies between 0 and 100. A disease with an empty
  symptom profile has \<open>total_symptoms = 0\<close>, so it is never among the candidates, and the
  divisor of the confidence expression is never zero.
\<close>

theorem candidate_bounds:
  "\<exists>out. diagnose db symptom_ids = Inr out \<and>
     (\<forall>r \<in> set out. 1 \<le> match_count r \<and> match_count r \<le> total_symptoms r
        \<and> (\<exists>c. confidence_score r = Some c \<and> 0 \<le> c \<and> c \<le> 100))"
proof -
  obtain out where out: "diagnose db symptom_ids = Inr out"
    using diagnose_total[of db symptom_ids] by blast
  have "1 \<le> match_count r \<and> match_count r \<le> total_symptoms r
        \<and> (\<exists>c. confidence_score r = Some c \<and> 0 \<le> c \<and> c \<le> 100)" if "r \<in> set out" for r
  proof -
    from diagnose_row[OF out that] obtain k
      where k: "k \<in> set (group_keys (joined_rows db symptom_ids))"
        and r: "select_row db (joined_rows db symptom_ids) k = Inr r" by blast
    from select_row_ok[OF k] r show ?thesis by auto
  qed
  with out show ?thesis by blast
qed

theorem candidate_bounds_witness:
  "diagnose scenario_A [1, 2, 3] = Inr [migraine_row, flu_row, common_cold_row 67]
   \<and> 1 \<le> match_count flu_row \<and> match_count flu_row \<le> total_symptoms flu_row
   \<and> (\<exists>c. confidence_score flu_row = Some c \<and> 0 \<le> c \<and> c \<le> 100)"
proof -
  from candidate_bounds[of scenario_A "[1, 2, 3]"] obtain out
    where o: "diagnose scenario_A [1, 2, 3] = Inr out"
      and b: "\<forall>r \<in> set out. 1 \<le> match_count r \<and> match_count r \<le> total_symptoms r
                \<and> (\<exists>c. confidence_score r = Some c \<and> 0 \<le> c \<and> c \<le> 100)"
    by blast
  from o have "out = [migraine_row, flu_row, common_cold_row 67]"
    by (simp add: diagnose_A)
  with o b show ?thesis by simp
qed

lemma count_disease_symptoms_le:
  "count_disease_symptoms db i \<le> length (disease_symptoms_table db)"
  by (simp add: count_disease_symptoms_def)

text \<open>
  Claim C1, as amended: for every candidate that \<^verbatim>\<open>diagnose\<close> returns, the confidence
  score is the value of the \<^verbatim>\<open>float8\<close> expression
  \<^verbatim>\<open>(match_count / total_symptoms) * 100\<close> cast to \<^verbatim>\<open>INTEGER\<close>, and the cast rounds: the
  score is an integer nearest to \<open>100 * match_count / total_symptoms\<close>, at most one half away
  from it (\<open>|2 * (score * total - 100 * match)| \<le> total\<close>). It is not the floor. The
  bound on the table is the range of its 32-bit \<^verbatim>\<open>SERIAL\<close> key.
\<close>

theorem confidence_nearest_integer:
  assumes "diagnose db symptom_ids = Inr out" and "r \<in> set out"
    and "length (disease_symptoms_table db) < 2 ^ 32"
  shows "\<exists>c. confidence_score r = Some c
           \<and> confidence_expr (match_count r) (total_symptoms r) = Inr (Some c)
           \<and> \<bar>2 * (c * int (total_symptoms r) - 100 * int (match_count r))\<bar>
                \<le> int (total_symptoms r)"
proof -
  from diagnose_row[OF assms(1,2)] obtain k
    where k: "k \<in> set (group_keys (joined_rows db symptom_ids))"
      and r: "select_row db (joined_rows db symptom_ids) k = Inr r" by blast
  from select_row_ok[OF k] r obtain c
    where t: "total_symptoms r = count_disease_symptoms db (fst k)"
      and m: "1 \<le> match_count r" "match_count r \<le> total_symptoms r"
      and c: "confidence_score r = Some (int c)"
             "confidence_expr (match_count r) (total_symptoms r) = Inr (Some (int c))"
    by auto
  have small: "total_symptoms r < 2 ^ 32"
    using count_disease_symptoms_le[of db "fst k"] assms(3) by (simp add: t)
  have pos: "0 < total_symptoms r" using m by simp
  from confidence_nearest[OF pos m(2) small c(2)] c show ?thesis by blast
qed

theorem confidence_nearest_integer_witness:
  "diagnose scenario_A [1, 2, 3] = Inr [migraine_row, flu_row, common_cold_row 67]
   \<and> common_cold_row 67 \<in> set [migraine_row, flu_row, common_cold_row 67]
   \<and> length (disease_symptoms_table scenario_A) < 2 ^ 32
   \<and> confidence_score (common_cold_row 67) = Some 67
   \<and> \<bar>2 * (67 * int (total_symptoms (common_cold_row 67))
              - 100 * int (match_count (common_cold_row 67)))\<bar>
        \<le> int (total_symptoms (common_cold_row 67))"
proof -
  have len: "length (disease_symptoms_table scenario_A) < 2 ^ 32"
    by (simp add: scenario_A_def)
  have mem: "common_cold_row 67 \<in> set [migraine_row, flu_row, common_cold_row 67]" by simp
  from confidence_nearest_integer[OF diagnose_A mem len] obtain c
    where "confidence_score (common_cold_row 67) = Some c"
      and "\<bar>2 * (c * int (total_symptoms (common_cold_row 67))
                  - 100 * int (match_count (common_cold_row 67)))\<bar>
             \<le> int (total_symptoms (common_cold_row 67))"
    by blast
  moreover from this(1) have "c = 67" by (simp add: common_cold_row_def)
  ultimately show ?thesis using len diagnose_A by simp
qed

text \<open>
  Claim C1 as stated fails: in scenario A the common cold matches 2 of its 3 symptoms and
  scores 67, while \<open>100 * 2 div 3 = 66\<close>.
\<close>

theorem confidence_not_truncated:
  "diagnose scenario_A [1, 2, 3] = Inr [migraine_row, flu_row, common_cold_row 67]
   \<and> match_count (common_cold_row 67) = 2 \<and> total_symptoms (common_cold_row 67) = 3
   \<and> confidence_score (common_cold_row 67)
       \<noteq> Some (int (100 * match_count (common_cold_row 67) div total_symptoms (common_cold_row 67)))"
  by (simp add: diagnose_A) (simp add: common_cold_row_def)

lemma order_by_key_le:
  assumes "confidence_score x = Some a" and "confidence_score y = Some b"
    and "order_by_key x \<le> order_by_key y"
  shows "b < a \<or> (a = b \<and> match_count y \<le> match_count x)"
  using assms by (auto simp: order_by_key_def)

text \<open>
  Claim C5: for every input and catalog, any two consecutive candidates \<open>a\<close> before \<open>b\<close> of
  the output have \<open>a.confidence_score > b.confidence_score\<close>, or equal confidence scores and
  \<open>a.match_count \<ge> b.match_count\<close>: the output is ordered by confidence descending,
  ties broken by match count descending.
\<close>

theorem diagnose_sorted:
  assumes "diagnose db symptom_ids = Inr out" and "Suc i < length out"
  shows "\<exists>a b. confidence_score (out ! i) = Some a \<and> confidence_score (out ! Suc i) = Some b
           \<and> (b < a \<or> (a = b \<and> match_count (out ! Suc i) \<le> match_count (out ! i)))"
proof -
  obtain rs where d: "diagnose db symptom_ids = Inr (take 10 (sort_key order_by_key rs))"
    using diagnose_total[of db symptom_ids] by blast
  with assms(1) have out: "out = take 10 (sort_key order_by_key rs)" by simp
  have "sorted (map order_by_key (sort_key order_by_key rs))" by (rule sorted_sort_key)
  then have "sorted (take 10 (map order_by_key (sort_key order_by_key rs)))"
    by (rule sorted_wrt_take)
  then have s: "sorted (map order_by_key out)" by (simp add: out take_map)
  have le: "order_by_key (out ! i) \<le> order_by_key (out ! Suc i)"
    using sorted_nth_mono[OF s, of i "Suc i"] assms(2) by simp
  have some: "\<exists>c. confidence_score r = Some c" if "r \<in> set out" for r
  proof -
    from diagnose_row[OF assms(1) that] obtain k
      where k: "k \<in> set (group_keys (joined_rows db symptom_ids))"
        and r: "select_row db (joined_rows db symptom_ids) k = Inr r" by blast
    from select_row_ok[OF k] r show ?thesis by auto
  qed
  obtain a where a: "confidence_score (out ! i) = Some a"
    using some[of "out ! i"] assms(2) by auto
  obtain b where b: "confidence_score (out ! Suc i) = Some b"
    using some[of "out ! Suc i"] assms(2) by auto
  from order_by_key_le[OF a b le] a b show ?thesis by blast
qed

theorem diagnose_sorted_witness:
  "diagnose scenario_A [1, 2, 3] = Inr [migraine_row, flu_row, common_cold_row 67]
   \<and> Suc 1 < length [migraine_row, flu_row, common_cold_row 67]
   \<and> confidence_score flu_row = Some 75 \<and> confidence_score (common_cold_row 67) = Some 67
   \<and> (67 :: int) < 75"
proof -
  have len: "Suc 1 < length [migraine_row, flu_row, common_cold_row 67]" by simp
  from diagnose_sorted[OF diagnose_A len] obtain a b
    where "confidence_score flu_row = Some a" "confidence_score (common_cold_row 67) = Some b"
      and "b < a \<or> (a = b \<and> match_count (common_cold_row 67) \<le> match_count flu_row)"
    by auto
  then show ?thesis using diagnose_A by (simp add: flu_row_def common_cold_row_def)
qed





lemma filter_key_single:
  "distinct (map f xs) \<Longrightarrow> k \<in> set xs \<Longrightarrow> filter (\<lambda>x. f k = f x) xs = [k]"
proof (induction xs)
  case Nil
  then show ?case by simp
next
  case (Cons x xs)
  show ?case
  proof (cases "k = x")
    case True
    have "filter (\<lambda>y. f x = f y) xs = []"
      using Cons.prems(1) by (auto simp: filter_empty_conv)
    with True show ?thesis by simp
  next
    case False
    with Cons.prems have k: "k \<in> set xs" and "f x \<noteq> f k" by auto
    with Cons.IH Cons.prems(1) show ?thesis by auto
  qed
qed

lemma sorted_by_distinct_keys_unique:
  assumes "distinct (map f xs)" and "mset ys = mset xs" and "sorted (map f ys)"
  shows "sort_key f xs = ys"
proof (rule properties_for_sort_key)
  show "mset ys = mset xs" by fact
  show "sorted (map f ys)" by fact
  fix k assume k: "k \<in> set ys"
  have "mset (map f ys) = mset (map f xs)" using assms(2) by simp
  then have dy: "distinct (map f ys)" using assms(1) by (metis mset_eq_imp_distinct_iff)
  have kx: "k \<in> set xs" using k assms(2) by (metis mset_eq_setD)
  show "filter (\<lambda>x. f k = f x) ys = filter (\<lambda>x. f k = f x) xs"
    by (simp add: filter_key_single[OF dy k] filter_key_single[OF assms(1) kx])
qed


lemma candidates_A:
  "map_result (select_row scenario_A (joined_rows scenario_A [1, 2, 3]))
     (surviving_groups scenario_A [1, 2, 3])
   = Inr [common_cold_row 67, flu_row, migraine_row]"
  by (simp add: groups_A cold_A flu_A migraine_A)

lemma order_by_key_eq_iff:
  "order_by_key x = order_by_key y \<longleftrightarrow>
     confidence_score x = confidence_score y \<and> match_count x = match_count y"
  by (auto simp: order_by_key_def split: option.splits)

lemma map_eq_transfer:
  assumes "map f xs = map f ys" and "\<And>x y. f x = f y \<Longrightarrow> g x = g y"
  shows "map g xs = map g ys"
  using assms(1)
proof (induction xs arbitrary: ys)
  case Nil
  then show ?case by simp
next
  case (Cons x xs)
  then obtain y ys' where ys: "ys = y # ys'" by (cases ys) auto
  with Cons.prems have "f x = f y" "map f xs = map f ys'" by auto
  with Cons.IH[of ys'] assms(2)[of x y] ys show ?case by simp
qed

lemma sorted_keys_unique:
  assumes "mset cands = mset rs" and "sorted (map f cands)"
  shows "map f cands = sort (map f rs)"
proof -
  have "mset (map f cands) = mset (map f rs)" using assms(1) by simp
  from properties_for_sort[OF this assms(2)] show ?thesis by simp
qed

lemma distinct_keys_iff:
  "distinct (map (\<lambda>r. (confidence_score r, match_count r)) rs) \<longleftrightarrow> distinct (map order_by_key rs)"
  by (simp add: distinct_map inj_on_def order_by_key_eq_iff)

lemma diagnose_admissible:
  "\<exists>out. diagnose db ids = Inr out \<and> admissible_output db ids out"
proof -
  obtain rs where rs: "map_result (select_row db (joined_rows db ids)) (surviving_groups db ids) = Inr rs"
    and d: "diagnose db ids = Inr (take 10 (sort_key order_by_key rs))"
    using diagnose_total[of db ids] by blast
  have "admissible_output db ids (take 10 (sort_key order_by_key rs))"
    unfolding admissible_output_def
    using rs by (intro exI[of _ rs] exI[of _ "sort_key order_by_key rs"]) simp
  with d show ?thesis by blast
qed

lemma admissible_same_keys:
  assumes "admissible_output db ids out" and "admissible_output db ids out'"
  shows "map order_by_key out = map order_by_key out'"
proof -
  from assms(1) obtain rs cands
    where rs: "map_result (select_row db (joined_rows db ids)) (surviving_groups db ids) = Inr rs"
      and c: "mset cands = mset rs" "sorted (map order_by_key cands)" "out = take 10 cands"
    unfolding admissible_output_def by blast
  from assms(2) obtain rs' cands'
    where rs': "map_result (select_row db (joined_rows db ids)) (surviving_groups db ids) = Inr rs'"
      and c': "mset cands' = mset rs'" "sorted (map order_by_key cands')" "out' = take 10 cands'"
    unfolding admissible_output_def by blast
  from rs rs' have eq: "rs' = rs" by simp
  have "map order_by_key cands = map order_by_key cands'"
    using sorted_keys_unique[OF c(1,2)] sorted_keys_unique[OF c'(1,2)] by (simp add: eq)
  then have "take 10 (map order_by_key cands) = take 10 (map order_by_key cands')" by simp
  then show ?thesis by (simp add: c(3) c'(3) take_map)
qed

lemma admissible_unique:
  assumes rs: "map_result (select_row db (joined_rows db ids)) (surviving_groups db ids) = Inr rs"
    and d: "distinct (map order_by_key rs)"
    and a: "admissible_output db ids out"
  shows "out = take 10 (sort_key order_by_key rs)"
proof -
  from a obtain rs' cands
    where rs': "map_result (select_row db (joined_rows db ids)) (surviving_groups db ids) = Inr rs'"
      and c: "mset cands = mset rs'" "sorted (map order_by_key cands)" "out = take 10 cands"
    unfolding admissible_output_def by blast
  from rs rs' have eq: "rs' = rs" by simp
  from sorted_by_distinct_keys_unique[OF d] c(1,2) eq have "sort_key order_by_key rs = cands" by simp
  with c(3) show ?thesis by simp
qed

lemma admissible_cong:
  "set ids = set ids' \<Longrightarrow> admissible_output db ids out = admissible_output db ids' out"
  by (simp add: admissible_output_def surviving_groups_def joined_rows_cong[of ids ids'])

lemma conf_Suc_0: "confidence_expr (Suc 0) (Suc 0) = Inr (Some 100)"
  using conf_1_1 by simp

lemma joined_twelve:
  "joined_rows twelve [1] =
     map (\<lambda>(i, n). (\<lparr>d_id = i, d_name = n, d_description = None\<rparr>,
                     \<lparr>ds_disease_id = i, ds_symptom_id = 1\<rparr>))
       [(1, ''d1''), (2, ''d2''), (3, ''d3''), (4, ''d4''), (5, ''d5''), (6, ''d6''),
        (7, ''d7''), (8, ''d8''), (9, ''d9''), (10, ''d10''), (11, ''d11''), (12, ''d12'')]"
  by (simp add: joined_rows_def twelve_def)

lemma groups_twelve_eq:
  "surviving_groups twelve [1] =
     map (\<lambda>(i, n). (i, n, None))
       [(1, ''d1''), (2, ''d2''), (3, ''d3''), (4, ''d4''), (5, ''d5''), (6, ''d6''),
        (7, ''d7''), (8, ''d8''), (9, ''d9''), (10, ''d10''), (11, ''d11''), (12, ''d12'')]"
  by (simp add: surviving_groups_def joined_twelve group_keys_def group_of_def key_of_def
      count_distinct_symptom_id_def)

lemma count_twelve:
  "i \<in> set [1, 2, 3, 4, 5, 6, 7, 8, 9, 10, 11, 12] \<Longrightarrow> count_disease_symptoms twelve i = 1"
  by (auto simp: count_disease_symptoms_def twelve_def)

lemma candidates_twelve:
  "map_result (select_row twelve (joined_rows twelve [1])) (surviving_groups twelve [1])
     = Inr twelve_rows"
  by (simp add: groups_twelve_eq select_row_def joined_twelve group_of_def key_of_def
      count_distinct_symptom_id_def count_twelve conf_Suc_0 twelve_rows_def)

lemma admissible_twelve:
  "admissible_output twelve [1] (take 10 twelve_rows)"
  "admissible_output twelve [1] (take 10 (rev twelve_rows))"
proof -
  have s: "sorted (map order_by_key twelve_rows)"
    by (simp add: twelve_rows_def order_by_key_def)
  have r: "sorted (map order_by_key (rev twelve_rows))"
    by (simp add: twelve_rows_def order_by_key_def)
  show "admissible_output twelve [1] (take 10 twelve_rows)"
    unfolding admissible_output_def
    using candidates_twelve s by (intro exI[of _ twelve_rows]) simp
  show "admissible_output twelve [1] (take 10 (rev twelve_rows))"
    unfolding admissible_output_def
    using candidates_twelve r by (intro exI[of _ twelve_rows] exI[of _ "rev twelve_rows"]) simp
qed

text \<open>
  Claim C9, as amended: the statement fixes its result up to the placing of candidates that
  are equal in both sort columns. \<open>diagnose\<close> returns an output the statement admits. Any
  two outputs it admits for the same id set and catalog have the same length and, position
  by position, the same confidence score and the same match count. When no two candidates
  have both the same confidence score and the same match count, it admits one output only:
  two calls then return the same candidates, with the same fields, in the same order. The
  outputs admitted depend on the set of the ids alone. Among candidates equal in both
  columns the order, and at the limit of 10 the choice, is the executor's.
\<close>

theorem diagnose_determined_up_to_ties:
  "(\<exists>out. diagnose db symptom_ids = Inr out \<and> admissible_output db symptom_ids out)
   \<and> (\<forall>out out'.
         admissible_output db symptom_ids out \<and> admissible_output db symptom_ids out'
         \<longrightarrow> length out = length out'
             \<and> map confidence_score out = map confidence_score out'
             \<and> map match_count out = map match_count out')
   \<and> (\<forall>rs out out'.
         map_result (select_row db (joined_rows db symptom_ids))
            (surviving_groups db symptom_ids) = Inr rs
         \<and> distinct (map (\<lambda>r. (confidence_score r, match_count r)) rs)
         \<and> admissible_output db symptom_ids out \<and> admissible_output db symptom_ids out'
         \<longrightarrow> out = out')
   \<and> (set symptom_ids = set symptom_ids'
         \<longrightarrow> (\<forall>out. admissible_output db symptom_ids out
                      \<longleftrightarrow> admissible_output db symptom_ids' out))"
proof -
  have 1: "\<exists>out. diagnose db symptom_ids = Inr out \<and> admissible_output db symptom_ids out"
    by (rule diagnose_admissible)
  have 2: "length out = length out'
           \<and> map confidence_score out = map confidence_score out'
           \<and> map match_count out = map match_count out'"
    if "admissible_output db symptom_ids out" "admissible_output db symptom_ids out'" for out out'
  proof -
    have k: "map order_by_key out = map order_by_key out'"
      using admissible_same_keys[OF that] .
    from k have "length out = length out'" by (rule map_eq_imp_length_eq)
    moreover from k have "map confidence_score out = map confidence_score out'"
      by (rule map_eq_transfer) (simp add: order_by_key_eq_iff)
    moreover from k have "map match_count out = map match_count out'"
      by (rule map_eq_transfer) (simp add: order_by_key_eq_iff)
    ultimately show ?thesis by blast
  qed
  have 3: "out = out'"
    if "map_result (select_row db (joined_rows db symptom_ids))
            (surviving_groups db symptom_ids) = Inr rs"
      and "distinct (map (\<lambda>r. (confidence_score r, match_count r)) rs)"
      and "admissible_output db symptom_ids out" "admissible_output db symptom_ids out'"
    for rs out out'
  proof -
    from that(2) have d: "distinct (map order_by_key rs)" by (simp add: distinct_keys_iff)
    from admissible_unique[OF that(1) d that(3)] admissible_unique[OF that(1) d that(4)]
    show ?thesis by simp
  qed
  have 4: "\<forall>out. admissible_output db symptom_ids out \<longleftrightarrow> admissible_output db symptom_ids' out"
    if "set symptom_ids = set symptom_ids'"
    using admissible_cong[OF that] by blast
  from 1 2 3 4 show ?thesis by blast
qed

theorem diagnose_determined_up_to_ties_witness:
  "map_result (select_row scenario_A (joined_rows scenario_A [1, 2, 3]))
       (surviving_groups scenario_A [1, 2, 3])
     = Inr [common_cold_row 67, flu_row, migraine_row]
   \<and> distinct (map (\<lambda>r. (confidence_score r, match_count r))
                 [common_cold_row 67, flu_row, migraine_row])
   \<and> admissible_output scenario_A [1, 2, 3] [migraine_row, flu_row, common_cold_row 67]
   \<and> set [1, 2, 3 :: int] = set [3, 1, 2]
   \<and> admissible_output scenario_A [3, 1, 2] [migraine_row, flu_row, common_cold_row 67]
   \<and> admissible_output twelve [1] (take 10 twelve_rows)
   \<and> admissible_output twelve [1] (take 10 (rev twelve_rows))
   \<and> map confidence_score (take 10 twelve_rows)
       = map confidence_score (take 10 (rev twelve_rows))
   \<and> map match_count (take 10 twelve_rows) = map match_count (take 10 (rev twelve_rows))"
proof -
  have h: "set [1, 2, 3 :: int] = set [3, 1, 2]" by auto
  have d: "distinct (map (\<lambda>r. (confidence_score r, match_count r))
                 [common_cold_row 67, flu_row, migraine_row])"
    by (simp add: common_cold_row_def flu_row_def migraine_row_def)
  from diagnose_determined_up_to_ties[of scenario_A "[1, 2, 3]" "[3, 1, 2]"] obtain out
    where o: "diagnose scenario_A [1, 2, 3] = Inr out"
      and a: "admissible_output scenario_A [1, 2, 3] out"
      and c: "set [1, 2, 3 :: int] = set [3, 1, 2] \<longrightarrow>
                (\<forall>out. admissible_output scenario_A [1, 2, 3] out
                    \<longleftrightarrow> admissible_output scenario_A [3, 1, 2] out)"
    by blast
  from o have "out = [migraine_row, flu_row, common_cold_row 67]" by (simp add: diagnose_A)
  with a have a1: "admissible_output scenario_A [1, 2, 3] [migraine_row, flu_row, common_cold_row 67]"
    by simp
  with c h have a2: "admissible_output scenario_A [3, 1, 2] [migraine_row, flu_row, common_cold_row 67]"
    by blast
  from diagnose_determined_up_to_ties[of twelve "[1]" "[1]"] admissible_twelve
  have t: "map confidence_score (take 10 twelve_rows)
             = map confidence_score (take 10 (rev twelve_rows))
           \<and> map match_count (take 10 twelve_rows) = map match_count (take 10 (rev twelve_rows))"
    by blast
  from candidates_A d a1 h a2 admissible_twelve t show ?thesis by blast
qed

text \<open>
  Claim C9 as stated fails: for the twelve diseases that all score 100 with one match, the
  first ten in the order of the ids and the first ten in the reverse order are both outputs
  the statement admits, and they differ (in their order and in their members).
\<close>

theorem two_admissible_outputs:
  "admissible_output twelve [1] (take 10 twelve_rows)
   \<and> admissible_output twelve [1] (take 10 (rev twelve_rows))
   \<and> take 10 twelve_rows \<noteq> take 10 (rev twelve_rows)"
proof -
  have "take 10 twelve_rows \<noteq> take 10 (rev twelve_rows)"
    by (simp add: twelve_rows_def)
  with admissible_twelve show ?thesis by blast
qed


section \<open>The claims about name resolution and the endpoint\<close>

lemma fetchone_filter: "fetchone (filter P xs) = find P xs"
  by (induction xs) (simp_all add: fetchone_def)

lemma fetchone_select_symptom:
  "fetchone (select_symptom db (lower (strip raw))) = resolve_name db raw"
  by (simp add: select_symptom_def resolve_name_def fetchone_filter)

lemma get_symptom_ids_loop_eq:
  "get_symptom_ids_loop db names ids matched =
     (ids @ map s_id (List.map_filter (resolve_name db) names),
      matched @ map s_name (List.map_filter (resolve_name db) names))"
proof (induction names arbitrary: ids matched)
  case Nil
  then show ?case by (simp add: List.map_filter_simps)
next
  case (Cons name names)
  show ?case
    by (cases "resolve_name db name")
       (simp_all add: Let_def fetchone_select_symptom Cons.IH List.map_filter_simps)
qed



lemma get_symptom_ids_eq:
  "get_symptom_ids db names =
     (map s_id (List.map_filter (resolve_name db) names),
      map s_name (List.map_filter (resolve_name db) names))"
  by (simp add: get_symptom_ids_def get_symptom_ids_loop_eq)

lemmas string_eval = strip_def lower_def lower_char_def isspace_def char_of_def bit_Suc_0_iff


lemma resolve_A:
  "resolve_name scenario_A ''fever'' = Some \<lparr>s_id = 1, s_name = ''fever'', s_severity_weight = Some 5\<rparr>"
  "resolve_name scenario_A '' Fever '' = Some \<lparr>s_id = 1, s_name = ''fever'', s_severity_weight = Some 5\<rparr>"
  "resolve_name scenario_A ''headache'' = Some \<lparr>s_id = 2, s_name = ''headache'', s_severity_weight = Some 5\<rparr>"
  "resolve_name scenario_A ''cough'' = Some \<lparr>s_id = 3, s_name = ''cough'', s_severity_weight = Some 5\<rparr>"
  "resolve_name scenario_A ''nonexistent_symptom'' = None"
  by (simp_all add: resolve_name_def scenario_A_def string_eval)


lemma ids_A:
  "get_symptom_ids scenario_A [''fever'', ''headache'', ''cough'']
     = ([1, 2, 3], [''fever'', ''headache'', ''cough''])"
  by (simp add: get_symptom_ids_eq List.map_filter_simps resolve_A)






text \<open>
  Claim C2, as amended: on the catalog of scenario A the names fever, headache, cough
  resolve to the ids 1, 2, 3, and the diagnosis returns exactly Migraine (1 of 1,
  confidence 100), then Flu (3 of 4, confidence 75), then Common Cold (2 of 3, confidence
  67), each with an empty recommendation list.
\<close>

theorem scenario_A_ranking:
  "get_symptom_ids scenario_A [''fever'', ''headache'', ''cough'']
     = ([1, 2, 3], [''fever'', ''headache'', ''cough''])
   \<and> diagnose scenario_A (fst (get_symptom_ids scenario_A [''fever'', ''headache'', ''cough'']))
       = Inr [migraine_row, flu_row, common_cold_row 67]
   \<and> perform_diagnosis scenario_A
         (fst (get_symptom_ids scenario_A [''fever'', ''headache'', ''cough'']))
       = Inr [\<lparr>disease_id = 3, disease_name = ''Migraine'', description = None,
                match_count = 1, total_symptoms = 1, confidence_score = Some 100,
                recommendations = []\<rparr>,
               \<lparr>disease_id = 2, disease_name = ''Flu'', description = None,
                match_count = 3, total_symptoms = 4, confidence_score = Some 75,
                recommendations = []\<rparr>,
               \<lparr>disease_id = 1, disease_name = ''Common Cold'', description = None,
                match_count = 2, total_symptoms = 3, confidence_score = Some 67,
                recommendations = []\<rparr>]"
proof -
  have r: "get_recommendations scenario_A i = []" for i
    by (simp add: get_recommendations_def recommendation_rows_def scenario_A_def)
  show ?thesis
    by (simp add: ids_A perform_diagnosis_def diagnose_A with_recommendations_def r)
       (simp add: migraine_row_def flu_row_def common_cold_row_def)
qed

text \<open>
  Claim C2 as stated fails: the sequence with confidence 66 for the common cold is not the
  output.
\<close>

theorem scenario_A_not_66:
  "diagnose scenario_A (fst (get_symptom_ids scenario_A [''fever'', ''headache'', ''cough'']))
     \<noteq> Inr [migraine_row, flu_row, common_cold_row 66]"
  by (simp add: ids_A diagnose_A common_cold_row_def)

section \<open>The claim about the recommendations\<close>

lemma perform_diagnosis_total:
  "\<exists>rows. diagnose db ids = Inr rows
       \<and> perform_diagnosis db ids = Inr (map (with_recommendations db) rows)"
  using diagnose_total[of db ids] by (auto simp: perform_diagnosis_def)

lemma precaution_key_le:
  assumes "precaution_order x = Some a" and "precaution_order y = Some b"
    and "precaution_key x \<le> precaution_key y"
  shows "a \<le> b"
  using assms by (simp add: precaution_key_def)

lemma recommendation_rows_sorted:
  assumes "i < j" and "j < length (recommendation_rows db d)"
    and "precaution_order (recommendation_rows db d ! i) = Some a"
    and "precaution_order (recommendation_rows db d ! j) = Some b"
  shows "a \<le> b"
proof -
  let ?rows = "recommendation_rows db d"
  have s: "sorted (map precaution_key ?rows)"
    unfolding recommendation_rows_def by (rule sorted_sort_key)
  have "map precaution_key ?rows ! i \<le> map precaution_key ?rows ! j"
    using assms(1,2) by (intro sorted_nth_mono[OF s]) simp_all
  then have "precaution_key (?rows ! i) \<le> precaution_key (?rows ! j)"
    using assms(1,2) by simp
  from precaution_key_le[OF assms(3,4) this] show ?thesis .
qed

lemma conf_2_2: "confidence_expr 2 2 = Inr (Some 100)"
  by (simp add: confidence_expr_def float8_eval)

lemma joined_clinic:
  "joined_rows clinic [1, 2] =
     [(\<lparr>d_id = 2, d_name = ''Flu'', d_description = Some ''Influenza''\<rparr>,
       \<lparr>ds_disease_id = 2, ds_symptom_id = 1\<rparr>),
      (\<lparr>d_id = 2, d_name = ''Flu'', d_description = Some ''Influenza''\<rparr>,
       \<lparr>ds_disease_id = 2, ds_symptom_id = 2\<rparr>),
      (\<lparr>d_id = 3, d_name = ''Migraine'', d_description = None\<rparr>,
       \<lparr>ds_disease_id = 3, ds_symptom_id = 2\<rparr>)]"
  by (simp add: joined_rows_def clinic_def)

lemma groups_clinic:
  "surviving_groups clinic [1, 2] = [(2, ''Flu'', Some ''Influenza''), (3, ''Migraine'', None)]"
  by (simp add: surviving_groups_def joined_clinic group_keys_def group_of_def key_of_def
      count_distinct_symptom_id_def)

lemma flu_clinic:
  "select_row clinic (joined_rows clinic [1, 2]) (2, ''Flu'', Some ''Influenza'')
     = Inr \<lparr>disease_id = 2, disease_name = ''Flu'', description = Some ''Influenza'',
            match_count = 2, total_symptoms = 2, confidence_score = Some 100\<rparr>"
proof -
  have m: "count_distinct_symptom_id
             (group_of (joined_rows clinic [1, 2]) (2, ''Flu'', Some ''Influenza'')) = 2"
    by (simp add: joined_clinic group_of_def key_of_def count_distinct_symptom_id_def)
  have t: "count_disease_symptoms clinic (fst (2, ''Flu'', Some ''Influenza'')) = 2"
    by (simp add: count_disease_symptoms_def clinic_def)
  show ?thesis
    using select_row_eq[OF m t conf_2_2] by simp
qed

lemma migraine_clinic:
  "select_row clinic (joined_rows clinic [1, 2]) (3, ''Migraine'', None) = Inr migraine_row"
proof -
  have m: "count_distinct_symptom_id
             (group_of (joined_rows clinic [1, 2]) (3, ''Migraine'', None)) = 1"
    by (simp add: joined_clinic group_of_def key_of_def count_distinct_symptom_id_def)
  have t: "count_disease_symptoms clinic (fst (3, ''Migraine'', None)) = 1"
    by (simp add: count_disease_symptoms_def clinic_def)
  show ?thesis
    using select_row_eq[OF m t conf_1_1] by (simp add: migraine_row_def)
qed

lemma diagnose_clinic:
  "diagnose clinic [1, 2] =
     Inr [\<lparr>disease_id = 2, disease_name = ''Flu'', description = Some ''Influenza'',
           match_count = 2, total_symptoms = 2, confidence_score = Some 100\<rparr>,
          migraine_row]"
proof -
  have "map_result (select_row clinic (joined_rows clinic [1, 2])) (surviving_groups clinic [1, 2])
        = Inr [\<lparr>disease_id = 2, disease_name = ''Flu'', description = Some ''Influenza'',
           match_count = 2, total_symptoms = 2, confidence_score = Some 100\<rparr>, migraine_row]"
    by (simp add: groups_clinic flu_clinic migraine_clinic)
  from diagnose_eq[OF this] show ?thesis
    by (simp add: order_by_key_def migraine_row_def)
qed

lemma recommendations_clinic:
  "get_recommendations clinic 2 = [''drink water'', ''rest'', ''see a doctor'']"
  "get_recommendations clinic 3 = []"
  by (simp_all add: get_recommendations_def recommendation_rows_def clinic_def precaution_key_def)

lemma perform_diagnosis_clinic:
  "perform_diagnosis clinic [1, 2] =
     Inr [\<lparr>disease_id = 2, disease_name = ''Flu'', description = Some ''Influenza'',
           match_count = 2, total_symptoms = 2, confidence_score = Some 100,
           recommendations = [''drink water'', ''rest'', ''see a doctor'']\<rparr>,
          \<lparr>disease_id = 3, disease_name = ''Migraine'', description = None,
           match_count = 1, total_symptoms = 1, confidence_score = Some 100,
           recommendations = []\<rparr>]"
  by (simp add: perform_diagnosis_def diagnose_clinic with_recommendations_def
      recommendations_clinic migraine_row_def)

text \<open>
  Claim C8: \<^verbatim>\<open>perform_diagnosis\<close> returns (no error), and each disease of its output
  carries the texts of exactly that disease's recommendation rows, sorted by their stored
  ordinal ascending (rows without an ordinal last) whatever the order of the rows in the
  table: any two rows with ordinals appear in the order of their ordinals. A disease
  without recommendation rows carries the empty list.
\<close>

theorem recommendations_ordered:
  "\<exists>out. perform_diagnosis db symptom_ids = Inr out \<and>
     (\<forall>r \<in> set out. \<exists>rows.
        recommendations r = map recommendation_text rows
        \<and> mset rows = mset (filter (\<lambda>x. r_disease_id x = disease_id r) (recommendations_table db))
        \<and> sorted (map precaution_key rows)
        \<and> (\<forall>i j a b. i < j \<and> j < length rows \<and> precaution_order (rows ! i) = Some a
                \<and> precaution_order (rows ! j) = Some b \<longrightarrow> a \<le> b)
        \<and> (filter (\<lambda>x. r_disease_id x = disease_id r) (recommendations_table db) = []
              \<longrightarrow> recommendations r = []))"
proof -
  obtain rows0 where p: "perform_diagnosis db symptom_ids = Inr (map (with_recommendations db) rows0)"
    using perform_diagnosis_total[of db symptom_ids] by blast
  have "\<exists>rows.
        recommendations r = map recommendation_text rows
        \<and> mset rows = mset (filter (\<lambda>x. r_disease_id x = disease_id r) (recommendations_table db))
        \<and> sorted (map precaution_key rows)
        \<and> (\<forall>i j a b. i < j \<and> j < length rows \<and> precaution_order (rows ! i) = Some a
                \<and> precaution_order (rows ! j) = Some b \<longrightarrow> a \<le> b)
        \<and> (filter (\<lambda>x. r_disease_id x = disease_id r) (recommendations_table db) = []
              \<longrightarrow> recommendations r = [])"
    if "r \<in> set (map (with_recommendations db) rows0)" for r
  proof -
    from that obtain row where r: "r = with_recommendations db row" by auto
    let ?rows = "recommendation_rows db (disease_id r)"
    have id: "disease_id r = disease_id row" by (simp add: r with_recommendations_def)
    have 1: "recommendations r = map recommendation_text ?rows"
      by (simp add: r with_recommendations_def get_recommendations_def)
    have 2: "mset ?rows = mset (filter (\<lambda>x. r_disease_id x = disease_id r) (recommendations_table db))"
      by (simp add: recommendation_rows_def)
    have 3: "sorted (map precaution_key ?rows)"
      unfolding recommendation_rows_def by (rule sorted_sort_key)
    have 4: "\<forall>i j a b. i < j \<and> j < length ?rows \<and> precaution_order (?rows ! i) = Some a
                \<and> precaution_order (?rows ! j) = Some b \<longrightarrow> a \<le> b"
      using recommendation_rows_sorted[of _ _ db "disease_id r"] by blast
    have 5: "filter (\<lambda>x. r_disease_id x = disease_id r) (recommendations_table db) = []
              \<longrightarrow> recommendations r = []"
      by (simp add: 1 recommendation_rows_def)
    from 1 2 3 4 5 show ?thesis by blast
  qed
  with p show ?thesis by blast
qed

theorem recommendations_ordered_witness:
  "perform_diagnosis clinic [1, 2] =
     Inr [\<lparr>disease_id = 2, disease_name = ''Flu'', description = Some ''Influenza'',
           match_count = 2, total_symptoms = 2, confidence_score = Some 100,
           recommendations = [''drink water'', ''rest'', ''see a doctor'']\<rparr>,
          \<lparr>disease_id = 3, disease_name = ''Migraine'', description = None,
           match_count = 1, total_symptoms = 1, confidence_score = Some 100,
           recommendations = []\<rparr>]
   \<and> filter (\<lambda>x. r_disease_id x = 3) (recommendations_table clinic) = []
   \<and> map recommendation_text (filter (\<lambda>x. r_disease_id x = 2) (recommendations_table clinic))
       = [''see a doctor'', ''rest'', ''drink water'']"
proof -
  from recommendations_ordered[of clinic "[1, 2]"] obtain out
    where "perform_diagnosis clinic [1, 2] = Inr out" by blast
  then have "out = [\<lparr>disease_id = 2, disease_name = ''Flu'', description = Some ''Influenza'',
           match_count = 2, total_symptoms = 2, confidence_score = Some 100,
           recommendations = [''drink water'', ''rest'', ''see a doctor'']\<rparr>,
          \<lparr>disease_id = 3, disease_name = ''Migraine'', description = None,
           match_count = 1, total_symptoms = 1, confidence_score = Some 100,
           recommendations = []\<rparr>]"
    by (simp add: perform_diagnosis_clinic)
  then show ?thesis by (simp add: perform_diagnosis_clinic) (simp add: clinic_def)
qed

end
